theory Spec2Isabelle
  imports Complex_Main "HOL-Library.AList"
begin

section \<open>The Mesos messages used by medea-test.py\<close>

text \<open>
  Modelled from the spec: the enumerations \<open>TaskState\<close> and \<open>Status\<close> and the message
  types of \<open>mesos_pb2\<close> are generated protobuf code that is not part of the source file.
  The spec fixes the terminal codes (finished, failed, killed, lost); the remaining codes
  are the non-terminal ones of the Mesos release the script was written for. Only the
  fields that the script assigns are kept in the message records.
\<close>

datatype TaskState =
  TASK_STAGING | TASK_STARTING | TASK_RUNNING
| TASK_FINISHED | TASK_FAILED | TASK_KILLED | TASK_LOST

datatype Status = DRIVER_NOT_STARTED | DRIVER_RUNNING | DRIVER_ABORTED | DRIVER_STOPPED

datatype ValueType = SCALAR

record ContainerInfo =
  container_image :: string

record CommandInfo =
  cmd_value :: string
  cmd_uris :: "string list"
  cmd_container :: "ContainerInfo option"

record Resource =
  res_name :: string
  res_type :: ValueType
  res_scalar :: rat

record TaskInfo =
  ti_task_id :: string
  ti_slave_id :: string
  ti_name :: string
  ti_resources :: "Resource list"
  ti_command :: "CommandInfo option"

record Offer =
  offer_id :: string
  offer_slave_id :: string

record TaskStatus =
  task_id :: string
  state :: TaskState
  message :: "string option"

fun TaskState_Name :: "TaskState \<Rightarrow> string" where
  "TaskState_Name TASK_STAGING = ''TASK_STAGING''"
| "TaskState_Name TASK_STARTING = ''TASK_STARTING''"
| "TaskState_Name TASK_RUNNING = ''TASK_RUNNING''"
| "TaskState_Name TASK_FINISHED = ''TASK_FINISHED''"
| "TaskState_Name TASK_FAILED = ''TASK_FAILED''"
| "TaskState_Name TASK_KILLED = ''TASK_KILLED''"
| "TaskState_Name TASK_LOST = ''TASK_LOST''"

fun Status_Name :: "Status \<Rightarrow> string" where
  "Status_Name DRIVER_NOT_STARTED = ''DRIVER_NOT_STARTED''"
| "Status_Name DRIVER_RUNNING = ''DRIVER_RUNNING''"
| "Status_Name DRIVER_ABORTED = ''DRIVER_ABORTED''"
| "Status_Name DRIVER_STOPPED = ''DRIVER_STOPPED''"


section \<open>Python primitives\<close>

text \<open>
  Exceptions are values. \<open>KeyError\<close> is a failed dictionary lookup,
  \<open>ZeroDivisionError\<close> and \<open>OverflowError\<close> come from the float arithmetic of the
  pacing delay, \<open>InvalidSleep\<close> is what \<open>time.sleep\<close> raises on a negative length.
\<close>

datatype error = KeyError string | ZeroDivisionError | OverflowError | InvalidSleep

text \<open>
  What a callback does to the outside world, in order: a line written to a logger (named
  by the logger's name) at level info or error, the task dump written to a task's logger
  (\<open>present_task\<close> prints the protobuf message; the effect carries the message), a
  pause (\<open>time.sleep\<close>), and the three driver calls.
\<close>

datatype effect =
  Info string string
| LogError string string
| InfoTask string TaskInfo
| Pause int
| LaunchTasks string "TaskInfo list"
| KillTask string
| Stop

text \<open>Decimal formatting: \<open>"%d"\<close>, \<open>"%02d"\<close> and \<open>str\<close> of an integer.\<close>

definition digit_char :: "nat \<Rightarrow> char" where
  "digit_char d = ''0123456789'' ! d"

fun dec_nat :: "nat \<Rightarrow> string" where
  "dec_nat n = (if n < 10 then [digit_char n] else dec_nat (n div 10) @ [digit_char (n mod 10)])"

declare dec_nat.simps [simp del]

definition fmt_02d :: "nat \<Rightarrow> string" where
  "fmt_02d n = replicate (2 - length (dec_nat n)) (CHR ''0'') @ dec_nat n"

definition str_int :: "int \<Rightarrow> string" where
  "str_int i = (if i < 0 then ''-'' @ dec_nat (nat (- i)) else dec_nat (nat i))"

text \<open>\<open>" ".join(xs)\<close>.\<close>

fun join_space :: "string list \<Rightarrow> string" where
  "join_space [] = []"
| "join_space [x] = x"
| "join_space (x # y # ys) = x @ '' '' @ join_space (y # ys)"

text \<open>
  Reading a decimal numeral back (leading zeros allowed). It is not part of the script;
  it names the numeric suffix of a task id.
\<close>

definition digit_val :: "char \<Rightarrow> nat" where
  "digit_val c = of_char c - 48"

definition read_dec :: "string \<Rightarrow> nat" where
  "read_dec cs = foldl (\<lambda>a c. 10 * a + digit_val c) 0 cs"


section \<open>Task factories\<close>

text \<open>
  \<open>command(shell="", uris=[], image=None)\<close>. The image is \<open>None\<close> or a string; the test
  \<open>if image:\<close> is false for \<open>None\<close> and for the empty string.
\<close>

definition command :: "string \<Rightarrow> string list \<Rightarrow> string option \<Rightarrow> CommandInfo" where
  "command shell uris img =
     \<lparr> cmd_value = shell,
       cmd_uris = uris,
       cmd_container =
         (case img of
            None \<Rightarrow> None
          | Some i \<Rightarrow> if i = [] then None else Some \<lparr> container_image = i \<rparr>) \<rparr>"

text \<open>\<open>task_base(tid, sid, cpu=0.5, ram=256)\<close>: no command yet, two scalar resources.\<close>

definition task_base :: "string \<Rightarrow> string \<Rightarrow> TaskInfo" where
  "task_base tid sid =
     \<lparr> ti_task_id = tid,
       ti_slave_id = sid,
       ti_name = tid,
       ti_resources =
         [ \<lparr> res_name = ''cpus'', res_type = SCALAR, res_scalar = 1 / 2 \<rparr>,
           \<lparr> res_name = ''mem'', res_type = SCALAR, res_scalar = 256 \<rparr> ],
       ti_command = None \<rparr>"

text \<open>
  \<open>task_with_command(tid, sid, *args)\<close> passes its remaining arguments to \<open>command\<close>;
  its one caller gives all three. \<open>MergeFrom\<close> into the fresh, empty command field
  copies the built command.
\<close>

definition task_with_command ::
    "string \<Rightarrow> string \<Rightarrow> string \<Rightarrow> string list \<Rightarrow> string option \<Rightarrow> TaskInfo" where
  "task_with_command tid sid shell uris img =
     (task_base tid sid) \<lparr> ti_command := Some (command shell uris img) \<rparr>"

text \<open>\<open>task_with_daemon\<close> calls \<open>command(image=image)\<close>: the other two arguments take
  their defaults.\<close>

definition task_with_daemon :: "string \<Rightarrow> string \<Rightarrow> string option \<Rightarrow> TaskInfo" where
  "task_with_daemon tid sid img =
     (task_base tid sid) \<lparr> ti_command := Some (command [] [] img) \<rparr>"


section \<open>The scheduler base class\<close>

text \<open>
  The instance attributes of \<open>Scheduler\<close>. The dictionaries \<open>statuses\<close> and \<open>loggers\<close>
  are association lists with assignment by \<open>AList.update\<close> (an existing key keeps its
  place, a new key goes to the end); Python does not promise an iteration order for
  them, and none of the results below depends on the order. A logger is represented by
  its name. \<open>token\<close> is the random hexadecimal run token drawn by the constructor.
\<close>

record Scheduler =
  token :: string
  trials :: int
  tasks :: "TaskInfo list"
  statuses :: "(string \<times> TaskState) list"
  loggers :: "(string \<times> string) list"
  framework_id :: "string option"

definition Scheduler_init :: "string \<Rightarrow> int \<Rightarrow> Scheduler" where
  "Scheduler_init tok n =
     \<lparr> token = tok, trials = n, tasks = [], statuses = [], loggers = [],
       framework_id = None \<rparr>"

definition terminal :: "TaskState set" where
  "terminal = {TASK_FINISHED, TASK_FAILED, TASK_KILLED, TASK_LOST}"

definition failed :: "TaskState set" where
  "failed = {TASK_FAILED, TASK_KILLED, TASK_LOST}"

text \<open>
  The result of a callback: the exception it raised (if any), the scheduler object as
  the callback left it, and what it did. An exception does not undo the assignments made
  before it.
\<close>

datatype outcome = Outcome (raised: "error option") (sched: Scheduler) (calls: "effect list")

definition present_status :: "TaskStatus \<Rightarrow> string" where
  "present_status update =
     TaskState_Name (state update) @
     (case message update of
        Some m \<Rightarrow>
          if state update \<in> failed
          then [CHR 0x0A] @ ''  message: '' @ [CHR 0x22] @ m @ [CHR 0x22]
          else []
      | None \<Rightarrow> [])"

definition registered :: "Scheduler \<Rightarrow> string \<Rightarrow> outcome" where
  "registered s fid =
     Outcome None (s \<lparr> framework_id := Some fid \<rparr>)
       [Info ''medea-test.scheduler'' (''Registered with ID:'' @ [CHR 0x0A] @ ''  '' @ fid)]"

text \<open>
  \<open>Scheduler.statusUpdate\<close>: the status is stored first, then the task's logger is
  looked up; the lookup raises \<open>KeyError\<close> for an id without a logger.
\<close>

definition statusUpdate :: "Scheduler \<Rightarrow> TaskStatus \<Rightarrow> outcome" where
  "statusUpdate s update =
     (let task = task_id update;
          code = state update;
          s' = s \<lparr> statuses := AList.update task code (statuses s) \<rparr>
      in case map_of (loggers s') task of
           None \<Rightarrow> Outcome (Some (KeyError task)) s' []
         | Some lg \<Rightarrow> Outcome None s' [Info lg (present_status update)])"

definition all_tasks_done :: "Scheduler \<Rightarrow> bool" where
  "all_tasks_done s =
     (let agg = filter (\<lambda>c. c \<in> terminal) (map snd (statuses s))
      in trials s \<le> int (length agg))"

text \<open>\<open>counts[code] += 1\<close> on a \<open>defaultdict(int)\<close>.\<close>

definition count_up :: "(TaskState \<times> nat) list \<Rightarrow> TaskState \<Rightarrow> (TaskState \<times> nat) list" where
  "count_up counts code =
     AList.update code ((case map_of counts code of None \<Rightarrow> 0 | Some n \<Rightarrow> n) + 1) counts"

definition task_status_summary :: "Scheduler \<Rightarrow> (string \<times> nat) list" where
  "task_status_summary s =
     map (\<lambda>(code, count). (TaskState_Name code, count))
       (foldl count_up [] (map snd (statuses s)))"

definition sum_up :: "Scheduler \<Rightarrow> effect list" where
  "sum_up s =
     [Info ''medea-test''
        (join_space (map (\<lambda>(k, v). k @ ''='' @ dec_nat v) (task_status_summary s)))]"

text \<open>
  \<open>next_task_id\<close> returns the long id and registers the child logger
  \<open>log.getChild(short_id)\<close>, whose name is the long id, under it.
\<close>

definition next_task_id :: "Scheduler \<Rightarrow> string \<times> Scheduler" where
  "next_task_id s =
     (let short_id = token s @ ''-task'' @ fmt_02d (length (tasks s));
          long_id = ''medea-test.'' @ short_id
      in (long_id,
          s \<lparr> loggers := AList.update long_id (''medea-test.'' @ short_id) (loggers s) \<rparr>))"


section \<open>The scheduler subclasses\<close>

text \<open>
  \<open>cli\<close> offers the two subclasses \<open>SleepScheduler\<close> and \<open>PGScheduler\<close>;
  \<open>ExecutorScheduler\<close>, which the source marks as not working and which no call
  constructs, is left out together with \<open>task_with_executor\<close>.

  The loops of \<open>SleepScheduler.resourceOffers\<close> and \<open>PGScheduler.resourceOffers\<close> have
  the same body; they differ in the length of the pause before each launch and in the
  task factory. \<open>launch_loop\<close> is that loop with the two as arguments. The first test is
  the \<open>break\<close>; \<open>time.sleep\<close> raises on a negative length.
\<close>

fun launch_loop ::
    "int \<Rightarrow> (string \<Rightarrow> string \<Rightarrow> TaskInfo) \<Rightarrow> Scheduler \<Rightarrow> Offer list \<Rightarrow> outcome" where
  "launch_loop pause build s [] = Outcome None s []"
| "launch_loop pause build s (offer # offers) =
     (if trials s \<le> int (length (tasks s)) then Outcome None s []
      else if pause < 0 then Outcome (Some InvalidSleep) s []
      else
        let tid = fst (next_task_id s);
            s1 = snd (next_task_id s);
            task = build tid (offer_slave_id offer);
            s2 = s1 \<lparr> tasks := tasks s1 @ [task] \<rparr>
        in case map_of (loggers s2) tid of
             None \<Rightarrow> Outcome (Some (KeyError tid)) s2 [Pause pause]
           | Some lg \<Rightarrow>
               let r = launch_loop pause build s2 offers
               in Outcome (raised r) (sched r)
                    (Pause pause # InfoTask lg task # LaunchTasks (offer_id offer) [task]
                       # calls r))"

text \<open>
  The constructor arguments of the two subclasses that \<open>cli\<close> can select; they are
  never assigned again. \<open>SleepScheduler\<close> computes its pause as
  \<open>int(float(self.sleep) / self.trials)\<close> in double precision. That computation is
  the first argument of the constructor here: given \<open>sleep\<close> and \<open>trials\<close> it raises or
  yields an integer. \<open>exact_delay\<close> is its reading in exact arithmetic: the two agree
  when both numbers are below \<open>2 ^ 53\<close> in absolute value, and differ beyond (the
  double quotient is rounded, and a number outside the double range raises
  \<open>OverflowError\<close>). The general results below hold for any reading; \<open>exact_delay\<close>
  is used only in concrete instances with small numbers.
\<close>

datatype strategy =
  SleepScheduler "int \<Rightarrow> int \<Rightarrow> error + int" int "string list" "string option"
| PGScheduler "string option"

definition exact_delay :: "int \<Rightarrow> int \<Rightarrow> error + int" where
  "exact_delay sl n =
     (if n = 0 then Inl ZeroDivisionError
      else Inr (sgn sl * sgn n * (\<bar>sl\<bar> div \<bar>n\<bar>)))"

definition SleepScheduler_statusUpdate :: "Scheduler \<Rightarrow> TaskStatus \<Rightarrow> outcome" where
  "SleepScheduler_statusUpdate s update =
     (let r = statusUpdate s update
      in case raised r of
           Some e \<Rightarrow> r
         | None \<Rightarrow>
             if all_tasks_done (sched r)
             then Outcome None (sched r) (calls r @ sum_up (sched r) @ [Stop])
             else r)"

definition SleepScheduler_resourceOffers ::
    "(int \<Rightarrow> int \<Rightarrow> error + int) \<Rightarrow> int \<Rightarrow> string list \<Rightarrow> string option \<Rightarrow>
     Scheduler \<Rightarrow> Offer list \<Rightarrow> outcome" where
  "SleepScheduler_resourceOffers fdiv sl uris ct s offers =
     (case fdiv sl (trials s) of
        Inl e \<Rightarrow> Outcome (Some e) s []
      | Inr delay \<Rightarrow>
          launch_loop delay
            (\<lambda>tid sid. task_with_command tid sid
               (''date -u +%T ; sleep '' @ str_int sl @ '' ; date -u +%T'') uris ct)
            s offers)"

definition PGScheduler_statusUpdate :: "Scheduler \<Rightarrow> TaskStatus \<Rightarrow> outcome" where
  "PGScheduler_statusUpdate s update =
     (let r = statusUpdate s update
      in case raised r of
           Some e \<Rightarrow> r
         | None \<Rightarrow>
             let kill = (if state update = TASK_RUNNING
                         then [Pause 2, KillTask (task_id update)] else [])
             in if all_tasks_done (sched r)
                then Outcome None (sched r) (calls r @ kill @ sum_up (sched r) @ [Stop])
                else Outcome None (sched r) (calls r @ kill))"

definition PGScheduler_resourceOffers :: "string option \<Rightarrow> Scheduler \<Rightarrow> Offer list \<Rightarrow> outcome" where
  "PGScheduler_resourceOffers ct s offers =
     launch_loop 2 (\<lambda>tid sid. task_with_daemon tid sid ct) s offers"


section \<open>Callbacks delivered by the driver, and the exit code\<close>

datatype event = Registered string | ResourceOffers "Offer list" | StatusUpdate TaskStatus

fun deliver :: "strategy \<Rightarrow> Scheduler \<Rightarrow> event \<Rightarrow> outcome" where
  "deliver strat s (Registered fid) = registered s fid"
| "deliver (SleepScheduler fdiv sl uris ct) s (ResourceOffers offers) =
     SleepScheduler_resourceOffers fdiv sl uris ct s offers"
| "deliver (PGScheduler ct) s (ResourceOffers offers) = PGScheduler_resourceOffers ct s offers"
| "deliver (SleepScheduler fdiv sl uris ct) s (StatusUpdate update) =
     SleepScheduler_statusUpdate s update"
| "deliver (PGScheduler ct) s (StatusUpdate update) = PGScheduler_statusUpdate s update"

text \<open>
  The scheduler object after the callbacks of a list were run on it in order, and what
  they did. A callback that raised leaves the object as it was at the raise; whether the
  driver delivers anything after that is the driver's affair, so \<open>run\<close> goes on, and a
  result about every list of events covers a driver that stops delivering.
\<close>

fun run :: "strategy \<Rightarrow> Scheduler \<Rightarrow> event list \<Rightarrow> Scheduler" where
  "run strat s [] = s"
| "run strat s (e # es) = run strat (sched (deliver strat s e)) es"

fun run_calls :: "strategy \<Rightarrow> Scheduler \<Rightarrow> event list \<Rightarrow> effect list" where
  "run_calls strat s [] = []"
| "run_calls strat s (e # es) =
     calls (deliver strat s e) @ run_calls strat (sched (deliver strat s e)) es"

text \<open>
  The end of \<open>cli\<close>, after \<open>driver.run()\<close> has returned \<open>code\<close>: the log lines and the
  \<open>driver.stop()\<close>, and the argument of \<open>os._exit\<close>. \<open>any_failed\<close> is the test
  \<open>any(_ in Scheduler.failed for _ in scheduler.statuses.values())\<close>.
\<close>

definition any_failed :: "Scheduler \<Rightarrow> bool" where
  "any_failed s = list_ex (\<lambda>c. c \<in> failed) (map snd (statuses s))"

definition cli_exit :: "Status \<Rightarrow> Scheduler \<Rightarrow> effect list \<times> int" where
  "cli_exit code s =
     (let pre = [Info ''medea-test'' (Status_Name code), Stop]
      in if code \<noteq> DRIVER_STOPPED
         then (pre @ [LogError ''medea-test'' ''Driver died in an anomalous state''], 2)
         else if any_failed s
         then (pre @ [LogError ''medea-test'' ''Test run failed -- not all tasks made it''], 1)
         else (pre, 0))"


section \<open>Notions of the specification\<close>

text \<open>
  The status updates among a list of events, and the last-known status of a task id:
  the state of the last update delivered for the id, or what was recorded before when
  there was none.
\<close>

fun updates_of :: "event list \<Rightarrow> TaskStatus list" where
  "updates_of [] = []"
| "updates_of (StatusUpdate u # es) = u # updates_of es"
| "updates_of (e # es) = updates_of es"

definition last_known :: "Scheduler \<Rightarrow> event list \<Rightarrow> string \<Rightarrow> TaskState option" where
  "last_known s es tid =
     (case filter (\<lambda>u. task_id u = tid) (rev (updates_of es)) of
        [] \<Rightarrow> map_of (statuses s) tid
      | u # us \<Rightarrow> Some (state u))"

definition launched_ids :: "Scheduler \<Rightarrow> string set" where
  "launched_ids s = set (map ti_task_id (tasks s))"

definition task_id_of :: "string \<Rightarrow> nat \<Rightarrow> string" where
  "task_id_of tok k = ''medea-test.'' @ tok @ ''-task'' @ fmt_02d k"


text \<open>
  The task ids and loggers of a scheduler that was built by the constructor and has only
  been changed by callbacks: the \<open>k\<close>-th task carries the id generated at task count
  \<open>k\<close>, and the loggers are those of exactly these ids.
\<close>

definition ids_inv :: "string \<Rightarrow> Scheduler \<Rightarrow> bool" where
  "ids_inv tok s =
     (token s = tok
      \<and> map ti_task_id (tasks s) = map (task_id_of tok) [0..<length (tasks s)]
      \<and> loggers s = map (\<lambda>k. (task_id_of tok k, task_id_of tok k)) [0..<length (tasks s)])"

text \<open>The driver call \<open>launchTasks\<close> among the effects.\<close>

fun is_launch :: "effect \<Rightarrow> bool" where
  "is_launch (LaunchTasks oid ts) = True"
| "is_launch e = False"

text \<open>
  The positions, in a list of callbacks delivered to a scheduler, of the status updates
  that are processed without an exception and after which \<open>all_tasks_done\<close> holds.
\<close>

fun is_update :: "event \<Rightarrow> bool" where
  "is_update (StatusUpdate u) = True"
| "is_update e = False"

definition stopping_updates :: "strategy \<Rightarrow> Scheduler \<Rightarrow> event list \<Rightarrow> nat list" where
  "stopping_updates strat s es =
     filter (\<lambda>k. is_update (es ! k)
                 \<and> raised (deliver strat (run strat s (take k es)) (es ! k)) = None
                 \<and> all_tasks_done (run strat s (take (Suc k) es)))
       [0..<length es]"

text \<open>Sample inputs for the concrete instances below.\<close>

definition offer1 :: Offer where
  "offer1 = \<lparr> offer_id = ''offer-1'', offer_slave_id = ''slave-1'' \<rparr>"

definition offer2 :: Offer where
  "offer2 = \<lparr> offer_id = ''offer-2'', offer_slave_id = ''slave-2'' \<rparr>"

definition update_of :: "string \<Rightarrow> TaskState \<Rightarrow> TaskStatus" where
  "update_of tid st = \<lparr> task_id = tid, state = st, message = None \<rparr>"


section \<open>Task factories: results\<close>

text \<open>
  C9. For every task id, node id and image, the daemon task factory builds the same
  task descriptor as the command task factory called with the empty command string, no
  URIs and that image.
\<close>

theorem task_with_daemon_is_command_task:
  "task_with_daemon tid sid img = task_with_command tid sid '''' [] img"
  by (simp add: task_with_daemon_def task_with_command_def)

text \<open>
  C10. The command descriptor built by \<open>command\<close> carries a container exactly when the
  image argument is present and is not the empty string; the empty string gives the same
  descriptor as no image; the shell command and the URI list are attached whatever the
  image is.
\<close>

theorem command_container_iff:
  "(cmd_container (command shell uris img) \<noteq> None) = (\<exists>i. img = Some i \<and> i \<noteq> [])
   \<and> cmd_container (command shell uris img)
       = (if img = None \<or> img = Some [] then None else Some \<lparr> container_image = the img \<rparr>)
   \<and> command shell uris (Some '''') = command shell uris None
   \<and> cmd_value (command shell uris img) = shell
   \<and> cmd_uris (command shell uris img) = uris"
  by (cases img) (simp_all add: command_def)

theorem command_container_iff_witness:
  "cmd_container (command ''date'' [''http://a''] (Some ''docker:///pg''))
     = Some \<lparr> container_image = ''docker:///pg'' \<rparr>
   \<and> cmd_container (command ''date'' [''http://a''] (Some '''')) = None
   \<and> cmd_value (command ''date'' [''http://a''] (Some '''')) = ''date''
   \<and> cmd_uris (command ''date'' [''http://a''] (Some '''')) = [''http://a'']"
  using command_container_iff [of "''date''" "[''http://a'']" "Some ''docker:///pg''"]
    command_container_iff [of "''date''" "[''http://a'']" "Some ''''"]
  by (simp add: command_def)


section \<open>Fields that the callbacks leave alone\<close>

lemma next_task_id_fields [simp]:
  "trials (snd (next_task_id s)) = trials s"
  "token (snd (next_task_id s)) = token s"
  "tasks (snd (next_task_id s)) = tasks s"
  "statuses (snd (next_task_id s)) = statuses s"
  "framework_id (snd (next_task_id s)) = framework_id s"
  by (simp_all add: next_task_id_def Let_def)

lemma launch_loop_fields:
  "trials (sched (launch_loop pause build s offers)) = trials s
   \<and> token (sched (launch_loop pause build s offers)) = token s
   \<and> statuses (sched (launch_loop pause build s offers)) = statuses s"
proof (induction offers arbitrary: s)
  case Nil
  show ?case by simp
next
  case (Cons offer offers)
  show ?case
    by (simp add: Let_def Cons.IH split: option.split)
qed

lemma statusUpdate_sched:
  "sched (statusUpdate s u) = s \<lparr> statuses := AList.update (task_id u) (state u) (statuses s) \<rparr>"
  by (simp add: statusUpdate_def Let_def split: option.split)

lemma strategy_statusUpdate_sched:
  "sched (SleepScheduler_statusUpdate s u) = sched (statusUpdate s u)"
  "sched (PGScheduler_statusUpdate s u) = sched (statusUpdate s u)"
  by (simp_all add: SleepScheduler_statusUpdate_def PGScheduler_statusUpdate_def Let_def
        split: option.split)

lemma deliver_update_sched:
  "sched (deliver strat s (StatusUpdate u)) = sched (statusUpdate s u)"
  by (cases strat) (simp_all add: strategy_statusUpdate_sched)

lemma deliver_offers_fields:
  "trials (sched (deliver strat s (ResourceOffers offers))) = trials s
   \<and> token (sched (deliver strat s (ResourceOffers offers))) = token s
   \<and> statuses (sched (deliver strat s (ResourceOffers offers))) = statuses s"
  by (cases strat)
     (simp_all add: SleepScheduler_resourceOffers_def PGScheduler_resourceOffers_def
        launch_loop_fields split: sum.split)

lemma deliver_trials [simp]: "trials (sched (deliver strat s e)) = trials s"
  by (cases e) (simp_all add: registered_def deliver_offers_fields deliver_update_sched statusUpdate_sched)

lemma deliver_token [simp]: "token (sched (deliver strat s e)) = token s"
  by (cases e) (simp_all add: registered_def deliver_offers_fields deliver_update_sched statusUpdate_sched)

lemma deliver_statuses:
  "statuses (sched (deliver strat s e)) =
     (case e of StatusUpdate u \<Rightarrow> AList.update (task_id u) (state u) (statuses s)
      | _ \<Rightarrow> statuses s)"
  by (cases e) (simp_all add: registered_def deliver_offers_fields deliver_update_sched statusUpdate_sched)

lemma run_trials [simp]: "trials (run strat s es) = trials s"
  by (induction es arbitrary: s) simp_all

lemma run_token [simp]: "token (run strat s es) = token s"
  by (induction es arbitrary: s) simp_all

lemma run_distinct_statuses:
  "distinct (map fst (statuses s)) \<Longrightarrow> distinct (map fst (statuses (run strat s es)))"
proof (induction es arbitrary: s)
  case Nil
  then show ?case by simp
next
  case (Cons e es)
  have "distinct (map fst (statuses (sched (deliver strat s e))))"
    using Cons.prems by (cases e) (simp_all add: deliver_statuses distinct_update del: deliver.simps)
  then show ?case using Cons.IH by simp
qed

lemma last_known_Nil [simp]: "last_known s [] tid = map_of (statuses s) tid"
  by (simp add: last_known_def)

lemma last_known_step:
  "last_known s (e # es) tid = last_known (sched (deliver strat s e)) es tid"
proof (cases e)
  case (StatusUpdate u)
  have st: "map_of (statuses (sched (deliver strat s e))) tid
              = (if task_id u = tid then Some (state u) else map_of (statuses s) tid)"
    by (simp add: StatusUpdate deliver_statuses update_conv' del: deliver.simps)
  show ?thesis
    unfolding last_known_def st
    by (simp add: StatusUpdate split: list.split)
next
  case (Registered fid)
  have st: "statuses (sched (deliver strat s e)) = statuses s"
    by (simp add: Registered deliver_statuses del: deliver.simps)
  show ?thesis unfolding last_known_def st by (simp add: Registered)
next
  case (ResourceOffers offers)
  have st: "statuses (sched (deliver strat s e)) = statuses s"
    by (simp add: ResourceOffers deliver_statuses del: deliver.simps)
  show ?thesis unfolding last_known_def st by (simp add: ResourceOffers)
qed

lemma run_statuses_last_known:
  "map_of (statuses (run strat s es)) tid = last_known s es tid"
proof (induction es arbitrary: s)
  case Nil
  show ?case by simp
next
  case (Cons e es)
  show ?case using Cons.IH [of "sched (deliver strat s e)"]
    by (simp add: last_known_step [of s e es tid strat])
qed

lemma count_values:
  "distinct (map fst al) \<Longrightarrow>
     length (filter P (map snd al)) = card {k. \<exists>v. map_of al k = Some v \<and> P v}"
proof (induction al)
  case Nil
  show ?case by simp
next
  case (Cons p al)
  obtain k v where p: "p = (k, v)" by (cases p)
  from Cons.prems p have knot: "k \<notin> fst ` set al" and dist: "distinct (map fst al)"
    by auto
  let ?S = "{k'. \<exists>v'. map_of al k' = Some v' \<and> P v'}"
  have fin: "finite ?S"
    by (rule finite_subset [of _ "dom (map_of al)"]) (auto simp: finite_dom_map_of)
  have notin: "k \<notin> ?S" using knot by (auto simp: map_of_eq_None_iff [symmetric])
  have set_eq: "{k'. \<exists>v'. map_of (p # al) k' = Some v' \<and> P v'} = (if P v then insert k ?S else ?S)"
    using knot by (auto simp: p map_of_eq_None_iff [symmetric])
  have "length (filter P (map snd (p # al))) = (if P v then Suc (card ?S) else card ?S)"
    using Cons.IH [OF dist] by (simp add: p)
  also have "\<dots> = card (if P v then insert k ?S else ?S)"
    using fin notin by (simp del: mem_Collect_eq)
  finally show ?case by (simp only: set_eq)
qed

lemma any_values:
  "distinct (map fst al) \<Longrightarrow> list_ex P (map snd al) = (\<exists>k v. map_of al k = Some v \<and> P v)"
  by (force simp: list_ex_iff)

lemma sum_update:
  "sum_list (map snd (AList.update k v al)) + (case map_of al k of None \<Rightarrow> 0 | Some n \<Rightarrow> n)
     = sum_list (map snd al) + (v::nat)"
  by (induction al) auto

lemma sum_count_up: "sum_list (map snd (count_up counts c)) = Suc (sum_list (map snd counts))"
  using sum_update [of c "(case map_of counts c of None \<Rightarrow> 0 | Some n \<Rightarrow> n) + 1" counts]
  by (simp add: count_up_def)

lemma sum_foldl_count_up:
  "sum_list (map snd (foldl count_up acc cs)) = sum_list (map snd acc) + length cs"
  by (induction cs arbitrary: acc) (simp_all add: sum_count_up)

lemma summary_total: "sum_list (map snd (task_status_summary s)) = length (statuses s)"
proof -
  have "snd \<circ> (\<lambda>(code, count). (TaskState_Name code, count)) = (snd :: TaskState \<times> nat \<Rightarrow> nat)"
    by (auto simp: fun_eq_iff)
  then show ?thesis by (simp add: task_status_summary_def sum_foldl_count_up)
qed


section \<open>Completion, failure and the exit code\<close>

text \<open>
  C1. For every scheduler state (its \<open>statuses\<close> being a dictionary: no key twice) and
  every list of events delivered to it, \<open>all_tasks_done\<close> holds afterwards exactly when
  the number of distinct task ids whose last-known status is terminal is at least
  \<open>trials\<close>. The count is over ids, so a task that moves from one terminal state to
  another is counted once, and the equivalence holds after every prefix of the events,
  so the test is never true before the count reaches \<open>trials\<close>.
\<close>

theorem all_tasks_done_iff:
  assumes "distinct (map fst (statuses s))"
  shows "all_tasks_done (run strat s es)
           = (trials s \<le> int (card {tid. \<exists>c. last_known s es tid = Some c \<and> c \<in> terminal}))"
proof -
  have d: "distinct (map fst (statuses (run strat s es)))"
    using assms by (rule run_distinct_statuses)
  show ?thesis
    unfolding all_tasks_done_def Let_def
    by (simp only: count_values [OF d] run_statuses_last_known run_trials)
qed

theorem all_tasks_done_iff_witness:
  "distinct (map fst (statuses (Scheduler_init ''00c0ffee'' 1)))
   \<and> all_tasks_done (run (PGScheduler None) (Scheduler_init ''00c0ffee'' 1)
        [ResourceOffers [offer1],
         StatusUpdate (update_of ''medea-test.00c0ffee-task00'' TASK_KILLED),
         StatusUpdate (update_of ''medea-test.00c0ffee-task00'' TASK_FINISHED)])
   \<and> 1 \<le> int (card {tid. \<exists>c. last_known (Scheduler_init ''00c0ffee'' 1)
        [ResourceOffers [offer1],
         StatusUpdate (update_of ''medea-test.00c0ffee-task00'' TASK_KILLED),
         StatusUpdate (update_of ''medea-test.00c0ffee-task00'' TASK_FINISHED)] tid = Some c
          \<and> c \<in> terminal})"
proof -
  let ?s = "Scheduler_init ''00c0ffee'' 1"
  let ?es = "[ResourceOffers [offer1],
         StatusUpdate (update_of ''medea-test.00c0ffee-task00'' TASK_KILLED),
         StatusUpdate (update_of ''medea-test.00c0ffee-task00'' TASK_FINISHED)]"
  have d: "distinct (map fst (statuses ?s))" by (simp add: Scheduler_init_def)
  have a: "all_tasks_done (run (PGScheduler None) ?s ?es)" by code_simp
  have t: "trials ?s = 1" by (simp add: Scheduler_init_def)
  from all_tasks_done_iff [OF d, of "PGScheduler None" ?es] a t d show ?thesis by simp
qed

text \<open>
  C6. For every scheduler state and every list of events delivered to it, the failure
  test of \<open>cli\<close> holds afterwards exactly when some task id has a last-known status among
  failed, killed and lost; the states the task went through before do not matter.
\<close>

theorem any_failed_iff:
  assumes "distinct (map fst (statuses s))"
  shows "any_failed (run strat s es) = (\<exists>tid c. last_known s es tid = Some c \<and> c \<in> failed)"
proof -
  have d: "distinct (map fst (statuses (run strat s es)))"
    using assms by (rule run_distinct_statuses)
  show ?thesis
    unfolding any_failed_def
    by (simp only: any_values [OF d] run_statuses_last_known)
qed

theorem any_failed_iff_witness:
  "distinct (map fst (statuses (Scheduler_init ''00c0ffee'' 2)))
   \<and> any_failed (run (PGScheduler None) (Scheduler_init ''00c0ffee'' 2)
        [ResourceOffers [offer1, offer2],
         StatusUpdate (update_of ''medea-test.00c0ffee-task00'' TASK_FAILED),
         StatusUpdate (update_of ''medea-test.00c0ffee-task01'' TASK_RUNNING),
         StatusUpdate (update_of ''medea-test.00c0ffee-task01'' TASK_FINISHED)])
   \<and> (\<exists>tid c. last_known (Scheduler_init ''00c0ffee'' 2)
        [ResourceOffers [offer1, offer2],
         StatusUpdate (update_of ''medea-test.00c0ffee-task00'' TASK_FAILED),
         StatusUpdate (update_of ''medea-test.00c0ffee-task01'' TASK_RUNNING),
         StatusUpdate (update_of ''medea-test.00c0ffee-task01'' TASK_FINISHED)] tid = Some c
          \<and> c \<in> failed)"
proof -
  let ?s = "Scheduler_init ''00c0ffee'' 2"
  let ?es = "[ResourceOffers [offer1, offer2],
         StatusUpdate (update_of ''medea-test.00c0ffee-task00'' TASK_FAILED),
         StatusUpdate (update_of ''medea-test.00c0ffee-task01'' TASK_RUNNING),
         StatusUpdate (update_of ''medea-test.00c0ffee-task01'' TASK_FINISHED)]"
  have d: "distinct (map fst (statuses ?s))" by (simp add: Scheduler_init_def)
  have a: "any_failed (run (PGScheduler None) ?s ?es)" by code_simp
  from any_failed_iff [OF d, of "PGScheduler None" ?es] a d show ?thesis by simp
qed

text \<open>
  C5. The exit code of \<open>cli\<close>: it is 2 exactly when the driver did not end in
  \<open>DRIVER_STOPPED\<close>; it is 1 exactly when the driver ended in \<open>DRIVER_STOPPED\<close> and some
  recorded status is a failure state; and when the driver ended in \<open>DRIVER_STOPPED\<close>,
  all trials are terminal and no recorded status is a failure state, it is 0.
\<close>

theorem cli_exit_code:
  "(snd (cli_exit code s) = 2) = (code \<noteq> DRIVER_STOPPED)
   \<and> (snd (cli_exit code s) = 1) = (code = DRIVER_STOPPED \<and> any_failed s)
   \<and> (code = DRIVER_STOPPED \<and> all_tasks_done s \<and> \<not> any_failed s \<longrightarrow> snd (cli_exit code s) = 0)"
  by (simp add: cli_exit_def Let_def)

theorem cli_exit_code_witness:
  "all_tasks_done (run (PGScheduler None) (Scheduler_init ''00c0ffee'' 1)
        [ResourceOffers [offer1],
         StatusUpdate (update_of ''medea-test.00c0ffee-task00'' TASK_FINISHED)])
   \<and> \<not> any_failed (run (PGScheduler None) (Scheduler_init ''00c0ffee'' 1)
        [ResourceOffers [offer1],
         StatusUpdate (update_of ''medea-test.00c0ffee-task00'' TASK_FINISHED)])
   \<and> snd (cli_exit DRIVER_STOPPED (run (PGScheduler None) (Scheduler_init ''00c0ffee'' 1)
        [ResourceOffers [offer1],
         StatusUpdate (update_of ''medea-test.00c0ffee-task00'' TASK_FINISHED)])) = 0"
proof -
  let ?s = "run (PGScheduler None) (Scheduler_init ''00c0ffee'' 1)
        [ResourceOffers [offer1],
         StatusUpdate (update_of ''medea-test.00c0ffee-task00'' TASK_FINISHED)]"
  have a: "all_tasks_done ?s" by code_simp
  have f: "\<not> any_failed ?s" by code_simp
  from cli_exit_code [of DRIVER_STOPPED ?s] a f show ?thesis by blast
qed


section \<open>Re-delivery of a status update\<close>

text \<open>
  C8. When the update \<open>u\<close> is already recorded for its id, delivering it again leaves
  \<open>statuses\<close> and the per-state counts of \<open>task_status_summary\<close> as they were, for the
  base class and for both subclasses; the counts still add up to the number of ids, so
  no task is counted twice.
\<close>

theorem statusUpdate_idempotent:
  assumes "map_of (statuses s) (task_id u) = Some (state u)"
  shows "statuses (sched (statusUpdate s u)) = statuses s
    \<and> statuses (sched (deliver strat s (StatusUpdate u))) = statuses s
    \<and> task_status_summary (sched (deliver strat s (StatusUpdate u))) = task_status_summary s
    \<and> sum_list (map snd (task_status_summary (sched (deliver strat s (StatusUpdate u)))))
        = length (statuses s)"
proof -
  have eq: "statuses (sched (deliver strat s (StatusUpdate u))) = statuses s"
    using assms by (simp add: deliver_statuses update_triv del: deliver.simps)
  have base: "statuses (sched (statusUpdate s u)) = statuses s"
    using eq by (simp add: deliver_update_sched)
  have summ: "task_status_summary (sched (deliver strat s (StatusUpdate u))) = task_status_summary s"
    by (simp only: task_status_summary_def eq)
  show ?thesis
    using eq base summ by (simp add: summary_total)
qed

theorem statusUpdate_idempotent_witness:
  "map_of (statuses (run (SleepScheduler exact_delay 10 [] None) (Scheduler_init ''00c0ffee'' 2)
        [ResourceOffers [offer1],
         StatusUpdate (update_of ''medea-test.00c0ffee-task00'' TASK_FINISHED)]))
      (task_id (update_of ''medea-test.00c0ffee-task00'' TASK_FINISHED))
     = Some (state (update_of ''medea-test.00c0ffee-task00'' TASK_FINISHED))
   \<and> statuses (sched (deliver (SleepScheduler exact_delay 10 [] None)
        (run (SleepScheduler exact_delay 10 [] None) (Scheduler_init ''00c0ffee'' 2)
          [ResourceOffers [offer1],
           StatusUpdate (update_of ''medea-test.00c0ffee-task00'' TASK_FINISHED)])
        (StatusUpdate (update_of ''medea-test.00c0ffee-task00'' TASK_FINISHED))))
     = [(''medea-test.00c0ffee-task00'', TASK_FINISHED)]
   \<and> task_status_summary (sched (deliver (SleepScheduler exact_delay 10 [] None)
        (run (SleepScheduler exact_delay 10 [] None) (Scheduler_init ''00c0ffee'' 2)
          [ResourceOffers [offer1],
           StatusUpdate (update_of ''medea-test.00c0ffee-task00'' TASK_FINISHED)])
        (StatusUpdate (update_of ''medea-test.00c0ffee-task00'' TASK_FINISHED))))
     = [(''TASK_FINISHED'', 1)]"
proof -
  let ?st = "SleepScheduler exact_delay 10 [] None"
  let ?u = "update_of ''medea-test.00c0ffee-task00'' TASK_FINISHED"
  let ?s = "run ?st (Scheduler_init ''00c0ffee'' 2) [ResourceOffers [offer1], StatusUpdate ?u]"
  have h: "map_of (statuses ?s) (task_id ?u) = Some (state ?u)" by code_simp
  have st: "statuses ?s = [(''medea-test.00c0ffee-task00'', TASK_FINISHED)]" by code_simp
  have su: "task_status_summary ?s = [(''TASK_FINISHED'', 1)]" by code_simp
  from statusUpdate_idempotent [OF h, of ?st] h st su show ?thesis by simp
qed


section \<open>Task ids\<close>

lemma digit_val_char: "d < 10 \<Longrightarrow> digit_val (digit_char d) = d"
proof -
  assume "d < 10"
  then have "d \<in> {0, 1, 2, 3, 4, 5, 6, 7, 8, 9}" by auto
  then show ?thesis
    by (auto simp: digit_val_def digit_char_def)
qed

lemma read_dec_snoc: "read_dec (cs @ [c]) = 10 * read_dec cs + digit_val c"
  by (simp add: read_dec_def)

lemma read_dec_dec_nat: "read_dec (dec_nat n) = n"
proof (induction n rule: dec_nat.induct)
  case (1 n)
  show ?case
  proof (cases "n < 10")
    case True
    then show ?thesis
      by (subst dec_nat.simps) (simp add: read_dec_def digit_val_char)
  next
    case False
    with "1.IH" have "read_dec (dec_nat (n div 10)) = n div 10" by simp
    with False show ?thesis
      by (subst dec_nat.simps) (simp add: read_dec_snoc digit_val_char)
  qed
qed

lemma digit_val_zero: "digit_val (CHR ''0'') = 0"
  by (simp add: digit_val_def)

lemma read_dec_zeros: "read_dec (replicate k (CHR ''0'') @ cs) = read_dec cs"
proof -
  have "foldl (\<lambda>a c. 10 * a + digit_val c) 0 (replicate k (CHR ''0'')) = 0"
    by (induction k) (simp_all add: digit_val_zero)
  then show ?thesis by (simp add: read_dec_def)
qed

lemma read_dec_fmt_02d: "read_dec (fmt_02d n) = n"
  by (simp add: fmt_02d_def read_dec_zeros read_dec_dec_nat)

lemma fmt_02d_inj: "fmt_02d k = fmt_02d k' \<Longrightarrow> k = k'"
  by (metis read_dec_fmt_02d)

lemma task_id_of_inj: "task_id_of tok k = task_id_of tok k' \<Longrightarrow> k = k'"
  by (simp add: task_id_of_def fmt_02d_inj)

lemma update_fresh: "k \<notin> fst ` set al \<Longrightarrow> AList.update k v al = al @ [(k, v)]"
  by (induction al) auto

lemma ids_inv_init: "ids_inv tok (Scheduler_init tok n)"
  by (simp add: ids_inv_def Scheduler_init_def)

lemma next_task_id_fst: "fst (next_task_id s) = task_id_of (token s) (length (tasks s))"
  by (simp add: next_task_id_def task_id_of_def Let_def)

lemma next_task_id_loggers:
  "loggers (snd (next_task_id s))
     = AList.update (fst (next_task_id s)) (fst (next_task_id s)) (loggers s)"
  by (simp add: next_task_id_def Let_def)

lemma ids_inv_keys:
  assumes "ids_inv tok s"
  shows "fst ` set (loggers s) = set (map ti_task_id (tasks s))"
    and "task_id_of tok (length (tasks s)) \<notin> fst ` set (loggers s)"
    and "distinct (map ti_task_id (tasks s))"
proof -
  have l: "map fst (loggers s) = map (task_id_of tok) [0..<length (tasks s)]"
    using assms by (simp add: ids_inv_def comp_def)
  have t: "map ti_task_id (tasks s) = map (task_id_of tok) [0..<length (tasks s)]"
    using assms by (simp add: ids_inv_def)
  have "set (map fst (loggers s)) = set (map ti_task_id (tasks s))"
    by (simp only: l t)
  then show "fst ` set (loggers s) = set (map ti_task_id (tasks s))" by simp
  have "task_id_of tok (length (tasks s)) \<notin> set (map fst (loggers s))"
    unfolding l by (auto dest: task_id_of_inj)
  then show "task_id_of tok (length (tasks s)) \<notin> fst ` set (loggers s)" by simp
  have "inj_on (task_id_of tok) (set [0..<length (tasks s)])"
    by (rule inj_onI) (rule task_id_of_inj)
  then show "distinct (map ti_task_id (tasks s))"
    unfolding t by (simp add: distinct_map)
qed

lemma ids_inv_step:
  assumes inv: "ids_inv tok s" and b: "ti_task_id task = fst (next_task_id s)"
  shows "ids_inv tok ((snd (next_task_id s)) \<lparr> tasks := tasks (snd (next_task_id s)) @ [task] \<rparr>)"
    and "map_of (loggers (snd (next_task_id s))) (fst (next_task_id s)) = Some (fst (next_task_id s))"
proof -
  have tok: "token s = tok" using inv by (simp add: ids_inv_def)
  have id: "fst (next_task_id s) = task_id_of tok (length (tasks s))"
    by (simp add: next_task_id_fst tok)
  have lg: "loggers (snd (next_task_id s))
              = loggers s @ [(task_id_of tok (length (tasks s)), task_id_of tok (length (tasks s)))]"
    using ids_inv_keys(2) [OF inv] by (simp add: next_task_id_loggers id update_fresh)
  show "ids_inv tok ((snd (next_task_id s)) \<lparr> tasks := tasks (snd (next_task_id s)) @ [task] \<rparr>)"
    using inv by (simp add: ids_inv_def lg b id)
  show "map_of (loggers (snd (next_task_id s))) (fst (next_task_id s)) = Some (fst (next_task_id s))"
    by (simp add: next_task_id_loggers update_conv')
qed

lemma launch_loop_ids_inv:
  assumes "\<And>tid sid. ti_task_id (build tid sid) = tid"
  shows "ids_inv tok s \<Longrightarrow> ids_inv tok (sched (launch_loop pause build s offers))"
proof (induction offers arbitrary: s)
  case Nil
  then show ?case by simp
next
  case (Cons offer offers)
  let ?task = "build (fst (next_task_id s)) (offer_slave_id offer)"
  let ?s2 = "(snd (next_task_id s)) \<lparr> tasks := tasks (snd (next_task_id s)) @ [?task] \<rparr>"
  have inv2: "ids_inv tok ?s2"
    by (rule ids_inv_step(1) [OF Cons.prems]) (simp add: assms)
  have "ids_inv tok (sched (launch_loop pause build ?s2 offers))"
    by (rule Cons.IH [OF inv2])
  then show ?case
    using Cons.prems inv2 by (simp add: Let_def split: option.split)
qed

lemma factories_task_id:
  "ti_task_id (task_with_command tid sid shell uris img) = tid"
  "ti_task_id (task_with_daemon tid sid img) = tid"
  by (simp_all add: task_with_command_def task_with_daemon_def task_base_def)

lemma deliver_ids_inv: "ids_inv tok s \<Longrightarrow> ids_inv tok (sched (deliver strat s e))"
proof (cases e)
  case (Registered fid)
  assume "ids_inv tok s"
  then show ?thesis by (simp add: Registered registered_def ids_inv_def)
next
  case (ResourceOffers offers)
  assume "ids_inv tok s"
  then show ?thesis
    by (cases strat)
       (simp_all add: ResourceOffers SleepScheduler_resourceOffers_def
          PGScheduler_resourceOffers_def launch_loop_ids_inv factories_task_id split: sum.split)
next
  case (StatusUpdate u)
  assume "ids_inv tok s"
  then show ?thesis
    by (simp add: StatusUpdate deliver_update_sched statusUpdate_sched ids_inv_def
          del: deliver.simps)
qed

lemma run_ids_inv: "ids_inv tok s \<Longrightarrow> ids_inv tok (run strat s es)"
  by (induction es arbitrary: s) (simp_all add: deliver_ids_inv del: deliver.simps)

text \<open>
  C7. In every run (the scheduler built by the constructor, then any list of
  callbacks), the ids that \<open>next_task_id\<close> has returned are the ids of the tasks
  launched so far, in order: the \<open>k\<close>-th is the fixed prefix, the run token,
  \<open>-task\<close> and the task count \<open>k\<close> at generation time in two-digit decimal, whose
  numeric value is \<open>k\<close>, so the suffixes increase strictly and the ids are pairwise
  distinct. The id that the next call returns differs from all of them and has no logger
  yet; the call registers a logger under it before returning.
\<close>

theorem next_task_id_distinct:
  assumes "s = run strat (Scheduler_init tok n) es"
  shows "map ti_task_id (tasks s) = map (task_id_of tok) [0..<length (tasks s)]
    \<and> distinct (map ti_task_id (tasks s))
    \<and> (\<forall>k. task_id_of tok k = ''medea-test.'' @ tok @ ''-task'' @ fmt_02d k
            \<and> read_dec (fmt_02d k) = k)
    \<and> fst (next_task_id s) = task_id_of tok (length (tasks s))
    \<and> fst (next_task_id s) \<notin> set (map ti_task_id (tasks s))
    \<and> map_of (loggers s) (fst (next_task_id s)) = None
    \<and> map_of (loggers (snd (next_task_id s))) (fst (next_task_id s))
        = Some (fst (next_task_id s))"
proof -
  have inv: "ids_inv tok s"
    unfolding assms by (rule run_ids_inv [OF ids_inv_init])
  have tok: "token s = tok" using inv by (simp add: ids_inv_def)
  have id: "fst (next_task_id s) = task_id_of tok (length (tasks s))"
    by (simp add: next_task_id_fst tok)
  have fresh: "fst (next_task_id s) \<notin> fst ` set (loggers s)"
    using ids_inv_keys(2) [OF inv] by (simp add: id)
  have c1: "map ti_task_id (tasks s) = map (task_id_of tok) [0..<length (tasks s)]"
    using inv by (simp add: ids_inv_def)
  have c2: "distinct (map ti_task_id (tasks s))" by (rule ids_inv_keys(3) [OF inv])
  have c3: "\<forall>k. task_id_of tok k = ''medea-test.'' @ tok @ ''-task'' @ fmt_02d k
            \<and> read_dec (fmt_02d k) = k"
    by (simp add: task_id_of_def read_dec_fmt_02d)
  have c5: "fst (next_task_id s) \<notin> set (map ti_task_id (tasks s))"
    using fresh ids_inv_keys(1) [OF inv] by simp
  have c6: "map_of (loggers s) (fst (next_task_id s)) = None"
    using fresh by (simp add: map_of_eq_None_iff)
  have c7: "map_of (loggers (snd (next_task_id s))) (fst (next_task_id s))
        = Some (fst (next_task_id s))"
    by (simp add: next_task_id_loggers update_conv')
  show ?thesis
    using c1 c2 c3 id c5 c6 c7 by blast
qed

theorem next_task_id_distinct_witness:
  "map ti_task_id (tasks (run (SleepScheduler exact_delay 10 [] None) (Scheduler_init ''00c0ffee'' 5)
        [ResourceOffers [offer1, offer2], ResourceOffers [offer1]]))
     = [''medea-test.00c0ffee-task00'', ''medea-test.00c0ffee-task01'',
        ''medea-test.00c0ffee-task02'']
   \<and> fst (next_task_id (run (SleepScheduler exact_delay 10 [] None) (Scheduler_init ''00c0ffee'' 5)
        [ResourceOffers [offer1, offer2], ResourceOffers [offer1]]))
     = ''medea-test.00c0ffee-task03''
   \<and> read_dec (fmt_02d 3) = 3"
proof -
  let ?s = "run (SleepScheduler exact_delay 10 [] None) (Scheduler_init ''00c0ffee'' 5)
        [ResourceOffers [offer1, offer2], ResourceOffers [offer1]]"
  have len: "length (tasks ?s) = 3" by code_simp
  have f: "map (task_id_of ''00c0ffee'') [0..<3]
     = [''medea-test.00c0ffee-task00'', ''medea-test.00c0ffee-task01'',
        ''medea-test.00c0ffee-task02'']" by code_simp
  have g: "task_id_of ''00c0ffee'' 3 = ''medea-test.00c0ffee-task03''" by code_simp
  note th = next_task_id_distinct [of ?s "SleepScheduler exact_delay 10 [] None" "''00c0ffee''" 5
      "[ResourceOffers [offer1, offer2], ResourceOffers [offer1]]", OF refl, unfolded len f g]
  from th show ?thesis by blast
qed


section \<open>Capacity\<close>

lemma launch_loop_bound:
  "int (length (tasks s)) \<le> trials s \<Longrightarrow>
     int (length (tasks (sched (launch_loop pause build s offers)))) \<le> trials s"
proof (induction offers arbitrary: s)
  case Nil
  then show ?case by simp
next
  case (Cons offer offers)
  show ?case
  proof (cases "trials s \<le> int (length (tasks s)) \<or> pause < 0")
    case True
    then show ?thesis using Cons.prems by auto
  next
    case False
    let ?task = "build (fst (next_task_id s)) (offer_slave_id offer)"
    let ?s2 = "(snd (next_task_id s)) \<lparr> tasks := tasks (snd (next_task_id s)) @ [?task] \<rparr>"
    have le: "int (length (tasks ?s2)) \<le> trials ?s2" using False by simp
    have "int (length (tasks (sched (launch_loop pause build ?s2 offers)))) \<le> trials ?s2"
      by (rule Cons.IH [OF le])
    then show ?thesis using False le by (simp add: Let_def split: option.split)
  qed
qed

lemma launch_loop_full:
  "trials s \<le> int (length (tasks s)) \<Longrightarrow> launch_loop pause build s offers = Outcome None s []"
  by (cases offers) simp_all

lemma launch_loop_tasks_prefix:
  "\<exists>ts. tasks (sched (launch_loop pause build s offers)) = tasks s @ ts"
proof (induction offers arbitrary: s)
  case Nil
  show ?case by simp
next
  case (Cons offer offers)
  let ?task = "build (fst (next_task_id s)) (offer_slave_id offer)"
  let ?s2 = "(snd (next_task_id s)) \<lparr> tasks := tasks (snd (next_task_id s)) @ [?task] \<rparr>"
  obtain ts where "tasks (sched (launch_loop pause build ?s2 offers)) = tasks ?s2 @ ts"
    using Cons.IH [of ?s2] by blast
  then show ?case by (simp add: Let_def split: option.split)
qed

lemma launch_loop_no_stop: "Stop \<notin> set (calls (launch_loop pause build s offers))"
proof (induction offers arbitrary: s)
  case Nil
  show ?case by simp
next
  case (Cons offer offers)
  show ?case by (simp add: Let_def Cons.IH split: option.split)
qed

lemma launch_loop_launches:
  assumes "\<And>tid sid. ti_task_id (build tid sid) = tid"
  shows "ids_inv tok s \<Longrightarrow>
     length (filter is_launch (calls (launch_loop pause build s offers))) + length (tasks s)
       = length (tasks (sched (launch_loop pause build s offers)))
     \<and> (\<forall>k. raised (launch_loop pause build s offers) \<noteq> Some (KeyError k))"
proof (induction offers arbitrary: s)
  case Nil
  show ?case by simp
next
  case (Cons offer offers)
  let ?task = "build (fst (next_task_id s)) (offer_slave_id offer)"
  let ?s2 = "(snd (next_task_id s)) \<lparr> tasks := tasks (snd (next_task_id s)) @ [?task] \<rparr>"
  have b: "ti_task_id ?task = fst (next_task_id s)" by (simp add: assms)
  have inv2: "ids_inv tok ?s2" by (rule ids_inv_step(1) [OF Cons.prems b])
  have lg: "map_of (loggers ?s2) (fst (next_task_id s)) = Some (fst (next_task_id s))"
    using ids_inv_step(2) [OF Cons.prems b] by simp
  note ih = Cons.IH [OF inv2]
  show ?case
    using ih lg by (simp add: Let_def)
qed

lemma statusUpdate_raised:
  "raised (statusUpdate s u)
     = (case map_of (loggers s) (task_id u) of None \<Rightarrow> Some (KeyError (task_id u)) | Some lg \<Rightarrow> None)"
  by (simp add: statusUpdate_def Let_def split: option.split)

lemma statusUpdate_calls:
  "calls (statusUpdate s u)
     = (case map_of (loggers s) (task_id u) of None \<Rightarrow> []
        | Some lg \<Rightarrow> [Info lg (present_status u)])"
  by (simp add: statusUpdate_def Let_def split: option.split)

lemma deliver_update_raised:
  "raised (deliver strat s (StatusUpdate u)) = raised (statusUpdate s u)"
  by (cases strat)
     (simp_all add: SleepScheduler_statusUpdate_def PGScheduler_statusUpdate_def Let_def
        split: option.split)

lemma deliver_update_calls:
  "calls (deliver strat s (StatusUpdate u)) =
     (if raised (statusUpdate s u) = None
      then calls (statusUpdate s u)
           @ (case strat of
                PGScheduler ct \<Rightarrow>
                  if state u = TASK_RUNNING then [Pause 2, KillTask (task_id u)] else []
              | SleepScheduler fdiv sl uris ct \<Rightarrow> [])
           @ (if all_tasks_done (sched (statusUpdate s u))
              then sum_up (sched (statusUpdate s u)) @ [Stop] else [])
      else calls (statusUpdate s u))"
  by (cases strat)
     (auto simp add: SleepScheduler_statusUpdate_def PGScheduler_statusUpdate_def Let_def
        split: option.split)

lemma deliver_offers_no_stop: "Stop \<notin> set (calls (deliver strat s (ResourceOffers offers)))"
  by (cases strat)
     (simp_all add: SleepScheduler_resourceOffers_def PGScheduler_resourceOffers_def
        launch_loop_no_stop split: sum.split)

lemma count_list_notin: "x \<notin> set xs \<Longrightarrow> count_list xs x = 0"
  by (induction xs) auto

lemma deliver_update_tasks:
  "tasks (sched (deliver strat s (StatusUpdate u))) = tasks s"
  "loggers (sched (deliver strat s (StatusUpdate u))) = loggers s"
  by (simp_all add: deliver_update_sched statusUpdate_sched del: deliver.simps)

lemma deliver_offers_tasks_prefix:
  "\<exists>ts. tasks (sched (deliver strat s (ResourceOffers offers))) = tasks s @ ts"
  by (cases strat)
     (simp_all add: SleepScheduler_resourceOffers_def PGScheduler_resourceOffers_def
        launch_loop_tasks_prefix split: sum.split)

lemma deliver_bound:
  "int (length (tasks s)) \<le> trials s \<Longrightarrow>
     int (length (tasks (sched (deliver strat s e)))) \<le> trials s"
proof (cases e)
  case (Registered fid)
  assume "int (length (tasks s)) \<le> trials s"
  then show ?thesis by (simp add: Registered registered_def)
next
  case (ResourceOffers offers)
  assume "int (length (tasks s)) \<le> trials s"
  then show ?thesis
    by (cases strat)
       (simp_all add: ResourceOffers SleepScheduler_resourceOffers_def
          PGScheduler_resourceOffers_def launch_loop_bound split: sum.split)
next
  case (StatusUpdate u)
  assume "int (length (tasks s)) \<le> trials s"
  then show ?thesis by (simp add: StatusUpdate deliver_update_tasks del: deliver.simps)
qed

lemma run_bound:
  "int (length (tasks s)) \<le> trials s \<Longrightarrow> int (length (tasks (run strat s es))) \<le> trials s"
proof (induction es arbitrary: s)
  case Nil
  then show ?case by simp
next
  case (Cons e es)
  have "int (length (tasks (sched (deliver strat s e)))) \<le> trials (sched (deliver strat s e))"
    using deliver_bound [OF Cons.prems] by simp
  from Cons.IH [OF this] show ?case by simp
qed

lemma deliver_launches:
  assumes "ids_inv tok s"
  shows "length (filter is_launch (calls (deliver strat s e))) + length (tasks s)
           = length (tasks (sched (deliver strat s e)))"
proof (cases e)
  case (Registered fid)
  then show ?thesis by (simp add: registered_def)
next
  case (ResourceOffers offers)
  show ?thesis
    using launch_loop_launches [OF _ assms]
    by (cases strat)
       (simp_all add: ResourceOffers SleepScheduler_resourceOffers_def
          PGScheduler_resourceOffers_def factories_task_id split: sum.split)
next
  case (StatusUpdate u)
  have "filter is_launch (calls (deliver strat s (StatusUpdate u))) = []"
    unfolding deliver_update_calls
    by (cases strat) (simp_all add: statusUpdate_calls sum_up_def split: option.split)
  then show ?thesis
    by (simp add: StatusUpdate deliver_update_tasks del: deliver.simps)
qed

lemma run_launches:
  "ids_inv tok s \<Longrightarrow>
     length (filter is_launch (run_calls strat s es)) + length (tasks s)
       = length (tasks (run strat s es))"
proof (induction es arbitrary: s)
  case Nil
  show ?case by simp
next
  case (Cons e es)
  have inv': "ids_inv tok (sched (deliver strat s e))"
    by (rule deliver_ids_inv [OF Cons.prems])
  show ?case
    using Cons.IH [OF inv'] deliver_launches [OF Cons.prems, of strat e]
    by (simp del: deliver.simps)
qed

lemma deliver_offers_full:
  assumes "trials s \<le> int (length (tasks s))"
  shows "sched (deliver strat s (ResourceOffers offers)) = s"
    and "calls (deliver strat s (ResourceOffers offers)) = []"
    and "raised (deliver strat s (ResourceOffers offers))
           = (case strat of
                PGScheduler ct \<Rightarrow> None
              | SleepScheduler fdiv sl uris ct \<Rightarrow>
                  (case fdiv sl (trials s) of Inl err \<Rightarrow> Some err | Inr delay \<Rightarrow> None))"
  by (cases strat;
      simp add: SleepScheduler_resourceOffers_def PGScheduler_resourceOffers_def
        launch_loop_full [OF assms] split: sum.split)+

text \<open>
  C4, as amended. When \<open>trials\<close> is not negative, in every run the number of task
  records never exceeds \<open>trials\<close>, and it equals the number of \<open>launchTasks\<close> calls
  made. Once \<open>trials\<close> records exist, a batch of offers changes nothing and launches
  nothing: the loop breaks at its first offer. No exception stands for the full
  capacity: \<open>PGScheduler\<close> returns normally, and \<open>SleepScheduler\<close> raises only what its
  delay computation raises.
\<close>

theorem launch_capacity:
  assumes "0 \<le> n" and "s = run strat (Scheduler_init tok n) es"
  shows "int (length (tasks s)) \<le> n
    \<and> length (filter is_launch (run_calls strat (Scheduler_init tok n) es)) = length (tasks s)
    \<and> (n \<le> int (length (tasks s)) \<longrightarrow>
         sched (deliver strat s (ResourceOffers offers)) = s
         \<and> calls (deliver strat s (ResourceOffers offers)) = []
         \<and> raised (deliver strat s (ResourceOffers offers))
             = (case strat of
                  PGScheduler ct \<Rightarrow> None
                | SleepScheduler fdiv sl uris ct \<Rightarrow>
                    (case fdiv sl n of Inl err \<Rightarrow> Some err | Inr delay \<Rightarrow> None)))"
proof -
  have tr: "trials s = n" by (simp add: assms(2) Scheduler_init_def)
  have "int (length (tasks (Scheduler_init tok n))) \<le> trials (Scheduler_init tok n)"
    using assms(1) by (simp add: Scheduler_init_def)
  from run_bound [OF this, of strat es] have b: "int (length (tasks s)) \<le> n"
    by (simp add: assms(2) Scheduler_init_def)
  have l: "length (filter is_launch (run_calls strat (Scheduler_init tok n) es)) = length (tasks s)"
    using run_launches [OF ids_inv_init, of strat tok n es]
    by (simp add: assms(2) Scheduler_init_def)
  show ?thesis
    using b l deliver_offers_full [of s strat offers, unfolded tr] by simp
qed

theorem launch_capacity_witness:
  "int (length (tasks (run (PGScheduler None) (Scheduler_init ''00c0ffee'' 1)
          [ResourceOffers [offer1, offer2]]))) \<le> 1
   \<and> length (filter is_launch (run_calls (PGScheduler None) (Scheduler_init ''00c0ffee'' 1)
          [ResourceOffers [offer1, offer2]])) = 1
   \<and> sched (deliver (PGScheduler None)
        (run (PGScheduler None) (Scheduler_init ''00c0ffee'' 1) [ResourceOffers [offer1, offer2]])
        (ResourceOffers [offer2]))
      = run (PGScheduler None) (Scheduler_init ''00c0ffee'' 1) [ResourceOffers [offer1, offer2]]
   \<and> calls (deliver (PGScheduler None)
        (run (PGScheduler None) (Scheduler_init ''00c0ffee'' 1) [ResourceOffers [offer1, offer2]])
        (ResourceOffers [offer2])) = []
   \<and> raised (deliver (PGScheduler None)
        (run (PGScheduler None) (Scheduler_init ''00c0ffee'' 1) [ResourceOffers [offer1, offer2]])
        (ResourceOffers [offer2])) = None"
proof -
  let ?s = "run (PGScheduler None) (Scheduler_init ''00c0ffee'' 1) [ResourceOffers [offer1, offer2]]"
  have len: "length (tasks ?s) = 1" by code_simp
  from launch_capacity [of 1 ?s "PGScheduler None" "''00c0ffee''" "[ResourceOffers [offer1, offer2]]"
      "[offer2]"] len
  show ?thesis by simp
qed

text \<open>
  The claim as stated fails: with \<open>trials = -1\<close> the empty task list is already longer
  than \<open>trials\<close>; and at full capacity a further batch of offers returns without an
  exception.
\<close>

theorem launch_capacity_counterexample:
  "\<not> int (length (tasks (run (SleepScheduler exact_delay 10 [] None)
            (Scheduler_init ''00c0ffee'' (- 1)) [ResourceOffers [offer1]])))
        \<le> trials (run (SleepScheduler exact_delay 10 [] None)
            (Scheduler_init ''00c0ffee'' (- 1)) [ResourceOffers [offer1]])
   \<and> raised (deliver (SleepScheduler exact_delay 10 [] None)
        (run (SleepScheduler exact_delay 10 [] None) (Scheduler_init ''00c0ffee'' 1)
           [ResourceOffers [offer1]])
        (ResourceOffers [offer2])) = None
   \<and> length (tasks (sched (deliver (SleepScheduler exact_delay 10 [] None)
        (run (SleepScheduler exact_delay 10 [] None) (Scheduler_init ''00c0ffee'' 1)
           [ResourceOffers [offer1]])
        (ResourceOffers [offer2])))) = 1"
  by code_simp


section \<open>Stopping the driver\<close>

lemma deliver_stop_count:
  "count_list (calls (deliver strat s e)) Stop
     = (if is_update e \<and> raised (deliver strat s e) = None
           \<and> all_tasks_done (sched (deliver strat s e))
        then 1 else 0)"
proof (cases e)
  case (Registered fid)
  then show ?thesis by (simp add: registered_def)
next
  case (ResourceOffers offers)
  then show ?thesis
    using deliver_offers_no_stop [of strat s offers] by (simp add: count_list_notin)
next
  case (StatusUpdate u)
  have cnt: "count_list (calls (deliver strat s (StatusUpdate u))) Stop
     = (if raised (statusUpdate s u) = None \<and> all_tasks_done (sched (statusUpdate s u))
        then 1 else 0)"
    unfolding deliver_update_calls
    by (cases strat) (simp_all add: statusUpdate_calls sum_up_def split: option.split)
  show ?thesis
    using cnt
    by (simp add: StatusUpdate deliver_update_raised deliver_update_sched del: deliver.simps)
qed

lemma deliver_stop_last:
  assumes "is_update e" and "raised (deliver strat s e) = None"
    and "all_tasks_done (sched (deliver strat s e))"
  shows "\<exists>pre. calls (deliver strat s e) = pre @ sum_up (sched (deliver strat s e)) @ [Stop]"
proof (cases e)
  case (StatusUpdate u)
  have "raised (statusUpdate s u) = None" "all_tasks_done (sched (statusUpdate s u))"
    using assms(2,3)
    by (simp_all add: StatusUpdate deliver_update_raised deliver_update_sched del: deliver.simps)
  then have "\<exists>pre. calls (deliver strat s (StatusUpdate u))
                  = pre @ sum_up (sched (statusUpdate s u)) @ [Stop]"
    unfolding deliver_update_calls by simp
  then show ?thesis
    by (simp add: StatusUpdate deliver_update_sched del: deliver.simps)
next
  case (Registered fid)
  then show ?thesis using assms(1) by simp
next
  case (ResourceOffers offers)
  then show ?thesis using assms(1) by simp
qed

lemma run_snoc: "run strat s (es @ [e]) = sched (deliver strat (run strat s es) e)"
  by (induction es arbitrary: s) (simp_all del: deliver.simps)

lemma run_calls_snoc:
  "run_calls strat s (es @ [e]) = run_calls strat s es @ calls (deliver strat (run strat s es) e)"
  by (induction es arbitrary: s) (simp_all del: deliver.simps)

lemma stopping_updates_snoc:
  "stopping_updates strat s (es @ [e]) =
     stopping_updates strat s es
     @ (if is_update e \<and> raised (deliver strat (run strat s es) e) = None
           \<and> all_tasks_done (sched (deliver strat (run strat s es) e))
        then [length es] else [])"
proof -
  have old: "filter (\<lambda>k. is_update ((es @ [e]) ! k)
                 \<and> raised (deliver strat (run strat s (take k (es @ [e]))) ((es @ [e]) ! k)) = None
                 \<and> all_tasks_done (run strat s (take (Suc k) (es @ [e]))))
              [0..<length es]
           = stopping_updates strat s es"
    unfolding stopping_updates_def
    by (rule filter_cong) (auto simp: nth_append Suc_le_eq simp del: deliver.simps)
  show ?thesis
    using old
    by (simp add: stopping_updates_def [of strat s "es @ [e]"] run_snoc del: deliver.simps)
qed

lemma run_stop_count:
  "count_list (run_calls strat s es) Stop = length (stopping_updates strat s es)"
proof (induction es rule: rev_induct)
  case Nil
  show ?case by (simp add: stopping_updates_def)
next
  case (snoc e es)
  show ?case
    by (simp add: run_calls_snoc stopping_updates_snoc snoc.IH deliver_stop_count
          del: deliver.simps)
qed

text \<open>
  C2, as amended. A callback calls \<open>stop\<close> on the driver, once and right after the
  summary line, exactly when it is a status update that is processed without an
  exception and after which \<open>all_tasks_done\<close> holds; no other callback calls \<open>stop\<close>.
  So the number of \<open>stop\<close> calls made while a list of callbacks is delivered is the
  number of such status updates among them (\<open>stopping_updates\<close> lists their positions),
  whatever came before them: there is no record that \<open>stop\<close> was called already.
\<close>

theorem stop_per_update:
  "count_list (calls (deliver strat s e)) Stop
     = (if is_update e \<and> raised (deliver strat s e) = None
           \<and> all_tasks_done (sched (deliver strat s e))
        then 1 else 0)
   \<and> (is_update e \<and> raised (deliver strat s e) = None
        \<and> all_tasks_done (sched (deliver strat s e))
      \<longrightarrow> (\<exists>pre. calls (deliver strat s e) = pre @ sum_up (sched (deliver strat s e)) @ [Stop]))
   \<and> count_list (run_calls strat s es) Stop = length (stopping_updates strat s es)"
  using deliver_stop_count [of strat s e] deliver_stop_last [of e strat s]
    run_stop_count [of strat s es]
  by blast

theorem stop_per_update_witness:
  "raised (deliver (PGScheduler None)
      (run (PGScheduler None) (Scheduler_init ''00c0ffee'' 1) [ResourceOffers [offer1]])
      (StatusUpdate (update_of ''medea-test.00c0ffee-task00'' TASK_KILLED))) = None
   \<and> all_tasks_done (sched (deliver (PGScheduler None)
      (run (PGScheduler None) (Scheduler_init ''00c0ffee'' 1) [ResourceOffers [offer1]])
      (StatusUpdate (update_of ''medea-test.00c0ffee-task00'' TASK_KILLED))))
   \<and> count_list (calls (deliver (PGScheduler None)
      (run (PGScheduler None) (Scheduler_init ''00c0ffee'' 1) [ResourceOffers [offer1]])
      (StatusUpdate (update_of ''medea-test.00c0ffee-task00'' TASK_KILLED)))) Stop = 1
   \<and> stopping_updates (PGScheduler None) (Scheduler_init ''00c0ffee'' 1)
        [ResourceOffers [offer1],
         StatusUpdate (update_of ''medea-test.deadbeef-task00'' TASK_FINISHED),
         StatusUpdate (update_of ''medea-test.00c0ffee-task00'' TASK_RUNNING),
         StatusUpdate (update_of ''medea-test.00c0ffee-task00'' TASK_KILLED)] = [2, 3]
   \<and> count_list (run_calls (PGScheduler None) (Scheduler_init ''00c0ffee'' 1)
        [ResourceOffers [offer1],
         StatusUpdate (update_of ''medea-test.deadbeef-task00'' TASK_FINISHED),
         StatusUpdate (update_of ''medea-test.00c0ffee-task00'' TASK_RUNNING),
         StatusUpdate (update_of ''medea-test.00c0ffee-task00'' TASK_KILLED)]) Stop = 2"
proof -
  let ?s = "run (PGScheduler None) (Scheduler_init ''00c0ffee'' 1) [ResourceOffers [offer1]]"
  let ?e = "StatusUpdate (update_of ''medea-test.00c0ffee-task00'' TASK_KILLED)"
  let ?es = "[ResourceOffers [offer1],
         StatusUpdate (update_of ''medea-test.deadbeef-task00'' TASK_FINISHED),
         StatusUpdate (update_of ''medea-test.00c0ffee-task00'' TASK_RUNNING),
         StatusUpdate (update_of ''medea-test.00c0ffee-task00'' TASK_KILLED)]"
  have r: "raised (deliver (PGScheduler None) ?s ?e) = None" by code_simp
  have a: "all_tasks_done (sched (deliver (PGScheduler None) ?s ?e))" by code_simp
  have l: "stopping_updates (PGScheduler None) (Scheduler_init ''00c0ffee'' 1) ?es = [2, 3]"
    by code_simp
  from stop_per_update [of "PGScheduler None" ?s ?e "[]"]
    stop_per_update [of "PGScheduler None" "Scheduler_init ''00c0ffee'' 1" ?e ?es] r a l
  show ?thesis by simp
qed

text \<open>
  The claim as stated fails: the daemon task reports running and is killed, the killed
  update arrives and arrives again; \<open>stop\<close> is called twice and the summary line is
  written twice.
\<close>

theorem stop_once_counterexample:
  "count_list (run_calls (PGScheduler (Some ''docker:///zaiste/postgresql''))
      (Scheduler_init ''00c0ffee'' 1)
      [ResourceOffers [offer1],
       StatusUpdate (update_of ''medea-test.00c0ffee-task00'' TASK_RUNNING),
       StatusUpdate (update_of ''medea-test.00c0ffee-task00'' TASK_KILLED),
       StatusUpdate (update_of ''medea-test.00c0ffee-task00'' TASK_KILLED)]) Stop = 2
   \<and> count_list (run_calls (PGScheduler (Some ''docker:///zaiste/postgresql''))
      (Scheduler_init ''00c0ffee'' 1)
      [ResourceOffers [offer1],
       StatusUpdate (update_of ''medea-test.00c0ffee-task00'' TASK_RUNNING),
       StatusUpdate (update_of ''medea-test.00c0ffee-task00'' TASK_KILLED),
       StatusUpdate (update_of ''medea-test.00c0ffee-task00'' TASK_KILLED)])
      (Info ''medea-test'' ''TASK_KILLED=1'') = 2"
  by code_simp


section \<open>Status updates for unknown tasks\<close>

lemma update_same_iff: "(AList.update k v al = al) = (map_of al k = Some v)"
proof
  assume "AList.update k v al = al"
  then have "map_of al k = map_of (AList.update k v al) k" by simp
  then show "map_of al k = Some v" by (simp add: update_conv')
next
  assume "map_of al k = Some v"
  then show "AList.update k v al = al" by (rule update_triv)
qed

text \<open>
  C3, as amended. In every run, a status update whose task id was never launched makes
  \<open>statusUpdate\<close> (of the base class and of both subclasses) raise \<open>KeyError\<close> from
  the logger lookup, after the assignment \<open>statuses[id] = state\<close> has been made;
  nothing is logged and no driver call is made. Afterwards the id is a key of
  \<open>statuses\<close> with that state, so the keys of \<open>statuses\<close> are not among the ids of
  the launched tasks; \<open>statuses\<close> is the same as before exactly when that state was
  already stored under the id. A callback that returns
  without an exception keeps the keys of \<open>statuses\<close> among the ids of the launched
  tasks.
\<close>

theorem statusUpdate_unknown_task:
  assumes "s = run strat (Scheduler_init tok n) es" and "task_id u \<notin> launched_ids s"
  shows "raised (deliver strat s (StatusUpdate u)) = Some (KeyError (task_id u))
    \<and> raised (statusUpdate s u) = Some (KeyError (task_id u))
    \<and> calls (deliver strat s (StatusUpdate u)) = []
    \<and> statuses (sched (deliver strat s (StatusUpdate u)))
        = AList.update (task_id u) (state u) (statuses s)
    \<and> map_of (statuses (sched (deliver strat s (StatusUpdate u)))) (task_id u) = Some (state u)
    \<and> (statuses (sched (deliver strat s (StatusUpdate u))) = statuses s)
        = (map_of (statuses s) (task_id u) = Some (state u))
    \<and> task_id u \<in> fst ` set (statuses (sched (deliver strat s (StatusUpdate u))))
    \<and> \<not> fst ` set (statuses (sched (deliver strat s (StatusUpdate u))))
          \<subseteq> launched_ids (sched (deliver strat s (StatusUpdate u)))
    \<and> (raised (deliver strat s e) = None \<and> fst ` set (statuses s) \<subseteq> launched_ids s
        \<longrightarrow> fst ` set (statuses (sched (deliver strat s e)))
              \<subseteq> launched_ids (sched (deliver strat s e)))"
proof -
  have inv: "ids_inv tok s"
    unfolding assms(1) by (rule run_ids_inv [OF ids_inv_init])
  have keys: "fst ` set (loggers s) = launched_ids s"
    using ids_inv_keys(1) [OF inv] by (simp add: launched_ids_def)
  have none: "map_of (loggers s) (task_id u) = None"
    using assms(2) keys by (simp add: map_of_eq_None_iff)
  have r: "raised (statusUpdate s u) = Some (KeyError (task_id u))"
    by (simp add: statusUpdate_raised none)
  have c: "calls (deliver strat s (StatusUpdate u)) = []"
    by (simp add: deliver_update_calls r statusUpdate_calls none del: deliver.simps)
  have st: "statuses (sched (deliver strat s (StatusUpdate u)))
        = AList.update (task_id u) (state u) (statuses s)"
    by (simp add: deliver_statuses del: deliver.simps)
  have pres: "fst ` set (statuses (sched (deliver strat s e)))
              \<subseteq> launched_ids (sched (deliver strat s e))"
    if ok: "raised (deliver strat s e) = None" and sub: "fst ` set (statuses s) \<subseteq> launched_ids s"
  proof (cases e)
    case (Registered fid)
    then show ?thesis using sub by (simp add: registered_def launched_ids_def)
  next
    case (ResourceOffers offers)
    obtain ts where "tasks (sched (deliver strat s (ResourceOffers offers))) = tasks s @ ts"
      using deliver_offers_tasks_prefix by blast
    then have "launched_ids s \<subseteq> launched_ids (sched (deliver strat s e))"
      by (simp add: ResourceOffers launched_ids_def del: deliver.simps)
    moreover have "statuses (sched (deliver strat s e)) = statuses s"
      by (simp add: ResourceOffers deliver_statuses del: deliver.simps)
    ultimately show ?thesis using sub by simp
  next
    case (StatusUpdate u')
    have "map_of (loggers s) (task_id u') \<noteq> None"
      using ok by (auto simp add: StatusUpdate deliver_update_raised statusUpdate_raised
            simp del: deliver.simps split: option.splits)
    then have "task_id u' \<in> launched_ids s"
      using keys by (simp add: map_of_eq_None_iff)
    then show ?thesis
      using sub
      by (simp add: StatusUpdate deliver_statuses dom_update launched_ids_def deliver_update_tasks
            del: deliver.simps)
  qed
  have c1: "raised (deliver strat s (StatusUpdate u)) = Some (KeyError (task_id u))"
    by (simp add: deliver_update_raised r del: deliver.simps)
  have c5: "map_of (statuses (sched (deliver strat s (StatusUpdate u)))) (task_id u)
              = Some (state u)"
    by (simp add: st update_conv')
  have same: "(statuses (sched (deliver strat s (StatusUpdate u))) = statuses s)
        = (map_of (statuses s) (task_id u) = Some (state u))"
    by (simp only: st update_same_iff)
  have key: "task_id u \<in> fst ` set (statuses (sched (deliver strat s (StatusUpdate u))))"
    by (simp add: st dom_update)
  have "launched_ids (sched (deliver strat s (StatusUpdate u))) = launched_ids s"
    by (simp add: launched_ids_def deliver_update_tasks del: deliver.simps)
  then have viol: "\<not> fst ` set (statuses (sched (deliver strat s (StatusUpdate u))))
          \<subseteq> launched_ids (sched (deliver strat s (StatusUpdate u)))"
    using key assms(2) by auto
  show ?thesis
    using c1 r c st c5 same key viol pres by blast
qed

theorem statusUpdate_unknown_task_witness:
  "raised (deliver (SleepScheduler exact_delay 10 [] None)
      (run (SleepScheduler exact_delay 10 [] None) (Scheduler_init ''00c0ffee'' 2)
         [ResourceOffers [offer1]])
      (StatusUpdate (update_of ''medea-test.deadbeef-task00'' TASK_FINISHED)))
     = Some (KeyError ''medea-test.deadbeef-task00'')
   \<and> map_of (statuses (sched (deliver (SleepScheduler exact_delay 10 [] None)
      (run (SleepScheduler exact_delay 10 [] None) (Scheduler_init ''00c0ffee'' 2)
         [ResourceOffers [offer1]])
      (StatusUpdate (update_of ''medea-test.deadbeef-task00'' TASK_FINISHED)))))
      ''medea-test.deadbeef-task00'' = Some TASK_FINISHED
   \<and> \<not> fst ` set (statuses (sched (deliver (SleepScheduler exact_delay 10 [] None)
      (run (SleepScheduler exact_delay 10 [] None) (Scheduler_init ''00c0ffee'' 2)
         [ResourceOffers [offer1]])
      (StatusUpdate (update_of ''medea-test.deadbeef-task00'' TASK_FINISHED)))))
     \<subseteq> launched_ids (sched (deliver (SleepScheduler exact_delay 10 [] None)
      (run (SleepScheduler exact_delay 10 [] None) (Scheduler_init ''00c0ffee'' 2)
         [ResourceOffers [offer1]])
      (StatusUpdate (update_of ''medea-test.deadbeef-task00'' TASK_FINISHED))))
   \<and> fst ` set (statuses (sched (deliver (SleepScheduler exact_delay 10 [] None)
      (run (SleepScheduler exact_delay 10 [] None) (Scheduler_init ''00c0ffee'' 2)
         [ResourceOffers [offer1]])
      (StatusUpdate (update_of ''medea-test.00c0ffee-task00'' TASK_FINISHED)))))
     \<subseteq> launched_ids (sched (deliver (SleepScheduler exact_delay 10 [] None)
      (run (SleepScheduler exact_delay 10 [] None) (Scheduler_init ''00c0ffee'' 2)
         [ResourceOffers [offer1]])
      (StatusUpdate (update_of ''medea-test.00c0ffee-task00'' TASK_FINISHED))))"
proof -
  let ?st = "SleepScheduler exact_delay 10 [] None"
  let ?s = "run ?st (Scheduler_init ''00c0ffee'' 2) [ResourceOffers [offer1]]"
  let ?u = "update_of ''medea-test.deadbeef-task00'' TASK_FINISHED"
  let ?e = "StatusUpdate (update_of ''medea-test.00c0ffee-task00'' TASK_FINISHED)"
  have h: "task_id ?u \<notin> launched_ids ?s" by code_simp
  have ok: "raised (deliver ?st ?s ?e) = None" by code_simp
  have sub: "fst ` set (statuses ?s) \<subseteq> launched_ids ?s" by code_simp
  have tid: "task_id ?u = ''medea-test.deadbeef-task00''" by (simp add: update_of_def)
  have st: "state ?u = TASK_FINISHED" by (simp add: update_of_def)
  note th = statusUpdate_unknown_task [OF refl h, of ?e, unfolded tid st]
  from th ok sub show ?thesis by blast
qed

text \<open>
  The claim as stated fails: an update for an id of another run raises \<open>KeyError\<close>,
  and afterwards \<open>statuses\<close> holds that id, which no launched task has.
\<close>

theorem statusUpdate_unknown_task_counterexample:
  "raised (deliver (SleepScheduler exact_delay 10 [] None) (Scheduler_init ''00c0ffee'' 2)
      (StatusUpdate (update_of ''medea-test.deadbeef-task00'' TASK_FINISHED)))
     = Some (KeyError ''medea-test.deadbeef-task00'')
   \<and> statuses (sched (deliver (SleepScheduler exact_delay 10 [] None)
        (Scheduler_init ''00c0ffee'' 2)
        (StatusUpdate (update_of ''medea-test.deadbeef-task00'' TASK_FINISHED))))
     = [(''medea-test.deadbeef-task00'', TASK_FINISHED)]
   \<and> statuses (sched (deliver (SleepScheduler exact_delay 10 [] None)
        (Scheduler_init ''00c0ffee'' 2)
        (StatusUpdate (update_of ''medea-test.deadbeef-task00'' TASK_FINISHED))))
     \<noteq> statuses (Scheduler_init ''00c0ffee'' 2)
   \<and> \<not> fst ` set (statuses (sched (deliver (SleepScheduler exact_delay 10 [] None)
        (Scheduler_init ''00c0ffee'' 2)
        (StatusUpdate (update_of ''medea-test.deadbeef-task00'' TASK_FINISHED)))))
       \<subseteq> launched_ids (sched (deliver (SleepScheduler exact_delay 10 [] None)
        (Scheduler_init ''00c0ffee'' 2)
        (StatusUpdate (update_of ''medea-test.deadbeef-task00'' TASK_FINISHED))))"
  by code_simp

end
